theory Spec2Isabelle
  imports Main "HOL-Library.Multiset"
begin

section \<open>Data model (src/main.py, lines 46-84)\<close>

text \<open>
  \<^verbatim>\<open>StatusEnum\<close> is a string enumeration with three members.  Every member is a
  non-empty string, hence truthy in Python.
\<close>

datatype StatusEnum = created | in_progress | completed

text \<open>
  A UUID is a 128-bit number and a \<^verbatim>\<open>datetime\<close> a count of microseconds; both are
  modelled as numbers.  Strings are \<^typ>\<open>string\<close>; the handlers only store, compare
  and return them.
\<close>

type_synonym UUID = nat
type_synonym datetime = int

record Task =
  id' :: UUID
  title :: string
  description :: "string option"
  status :: StatusEnum
  created_at :: datetime
  updated_at :: datetime

record TaskCreate =
  c_title :: string
  c_description :: "string option"
  c_status :: "StatusEnum option"

record TaskUpdate =
  u_title :: "string option"
  u_description :: "string option"
  u_status :: "StatusEnum option"

text \<open>
  The failures a handler can end with: the HTTP 404 raised by the handlers
  themselves, the primary-key violation the store raises on commit when an
  inserted id is already present, the error \<^verbatim>\<open>session.refresh\<close> raises for an
  object whose row is gone, the \<^verbatim>\<open>AttributeError\<close> of a call of a method that an
  object does not have, and the \<^verbatim>\<open>OverflowError\<close> the store's driver raises for a
  statement parameter that does not fit its integer type.
\<close>

datatype error =
    NotFound
  | IntegrityError
  | InvalidRequestError
  | AttributeError
  | OverflowError

section \<open>The store: one table, rows in insertion order\<close>

type_synonym store = "Task list"

text \<open>\<^verbatim>\<open>session.get(Task, task_id)\<close>: the row with that primary key, or \<^verbatim>\<open>None\<close>.\<close>

definition session_get :: "store \<Rightarrow> UUID \<Rightarrow> Task option" where
  "session_get s task_id = find (\<lambda>t. id' t = task_id) s"

text \<open>\<^verbatim>\<open>session.add(task); session.commit()\<close> for a new object: an INSERT.\<close>

definition session_insert :: "store \<Rightarrow> Task \<Rightarrow> error + store" where
  "session_insert s task =
     (if session_get s (id' task) = None then Inr (s @ [task]) else Inl IntegrityError)"

text \<open>
  \<^verbatim>\<open>session.add(task); session.commit()\<close> for a loaded object: an UPDATE of the row
  with the object's primary key.
\<close>

definition session_update :: "store \<Rightarrow> Task \<Rightarrow> store" where
  "session_update s task = map (\<lambda>t. if id' t = id' task then task else t) s"

text \<open>\<^verbatim>\<open>session.delete(task); session.commit()\<close>: a DELETE by primary key.\<close>

definition session_delete :: "store \<Rightarrow> Task \<Rightarrow> store" where
  "session_delete s task = filter (\<lambda>t. id' t \<noteq> id' task) s"

text \<open>\<^verbatim>\<open>session.refresh(task)\<close>: the object's row, read again.\<close>

definition session_refresh :: "store \<Rightarrow> Task \<Rightarrow> error + Task" where
  "session_refresh s task =
     (case session_get s (id' task) of
        None \<Rightarrow> Inl InvalidRequestError
      | Some task' \<Rightarrow> Inr task')"

section \<open>Statements and their execution\<close>

text \<open>
  The one condition a statement of the handlers ever holds is
  \<^verbatim>\<open>Task.status == status_\<close>; the column \<^verbatim>\<open>status\<close> is never \<^verbatim>\<open>NULL\<close>.
\<close>

datatype condition = Status_eq StatusEnum

datatype ordering = created_at_desc

record Select =
  whereclause :: "condition list"
  order_by_clause :: "ordering option"
  limit_clause :: "int option"
  offset_clause :: "int option"

definition select_Task :: Select where
  "select_Task =
     \<lparr> whereclause = [], order_by_clause = None, limit_clause = None, offset_clause = None \<rparr>"

definition stmt_where :: "Select \<Rightarrow> condition \<Rightarrow> Select" where
  "stmt_where stmt c = stmt\<lparr>whereclause := whereclause stmt @ [c]\<rparr>"

definition stmt_order_by :: "Select \<Rightarrow> ordering \<Rightarrow> Select" where
  "stmt_order_by stmt ord = stmt\<lparr>order_by_clause := Some ord\<rparr>"

definition stmt_limit :: "Select \<Rightarrow> int \<Rightarrow> Select" where
  "stmt_limit stmt n = stmt\<lparr>limit_clause := Some n\<rparr>"

definition stmt_offset :: "Select \<Rightarrow> int \<Rightarrow> Select" where
  "stmt_offset stmt n = stmt\<lparr>offset_clause := Some n\<rparr>"

fun eval_condition :: "condition \<Rightarrow> Task \<Rightarrow> bool" where
  "eval_condition (Status_eq st) t = (status t = st)"

text \<open>A row is selected when every condition of the statement is true on it.\<close>

definition row_selected :: "Select \<Rightarrow> Task \<Rightarrow> bool" where
  "row_selected stmt t = list_all (\<lambda>c. eval_condition c t) (whereclause stmt)"

text \<open>
  \<^verbatim>\<open>LIMIT\<close> and \<^verbatim>\<open>OFFSET\<close> reach the store as statement parameters.  Python's
  integers are unbounded; the store's \<^verbatim>\<open>INTEGER\<close> is a signed 64-bit number, and the
  driver raises \<^verbatim>\<open>OverflowError\<close> for a parameter outside it.
\<close>

definition bind_parameter :: "int option \<Rightarrow> error + int option" where
  "bind_parameter p =
     (case p of
        None \<Rightarrow> Inr None
      | Some n \<Rightarrow> if - (2 ^ 63) \<le> n \<and> n < 2 ^ 63 then Inr (Some n) else Inl OverflowError)"

text \<open>
  \<^verbatim>\<open>session.exec(stmt).all()\<close>: the selected rows, ordered, then without the first
  \<^verbatim>\<open>OFFSET\<close> rows, then cut to \<^verbatim>\<open>LIMIT\<close> rows.  The store reads a negative offset as
  0 and a negative limit as no limit.  Rows with equal \<^verbatim>\<open>created_at\<close> keep their
  insertion order.
\<close>

definition apply_order :: "ordering option \<Rightarrow> Task list \<Rightarrow> Task list" where
  "apply_order ord rows =
     (case ord of
        None \<Rightarrow> rows
      | Some created_at_desc \<Rightarrow> sort_key (\<lambda>t. - created_at t) rows)"

definition apply_offset :: "int option \<Rightarrow> Task list \<Rightarrow> Task list" where
  "apply_offset off rows = (case off of None \<Rightarrow> rows | Some k \<Rightarrow> drop (nat k) rows)"

definition apply_limit :: "int option \<Rightarrow> Task list \<Rightarrow> Task list" where
  "apply_limit lim rows =
     (case lim of
        None \<Rightarrow> rows
      | Some n \<Rightarrow> if n < 0 then rows else take (nat n) rows)"

definition session_exec :: "store \<Rightarrow> Select \<Rightarrow> error + Task list" where
  "session_exec s stmt =
     (case bind_parameter (limit_clause stmt) of
        Inl e \<Rightarrow> Inl e
      | Inr lim \<Rightarrow>
          (case bind_parameter (offset_clause stmt) of
             Inl e \<Rightarrow> Inl e
           | Inr off \<Rightarrow>
               Inr (apply_limit lim
                     (apply_offset off
                       (apply_order (order_by_clause stmt)
                         (filter (row_selected stmt) s))))))"

section \<open>apply\_filters and list (src/main.py, lines 125-138 and 175-187)\<close>

text \<open>
  \<^verbatim>\<open>if q:\<close> holds for a string that is neither \<^verbatim>\<open>None\<close> nor empty.  In that branch
  the pattern is built from \<^verbatim>\<open>q.lower()\<close>, and then \<^verbatim>\<open>col(Task.title).lower()\<close> is
  evaluated: a column expression has no method \<^verbatim>\<open>lower\<close>, so the call raises
  \<^verbatim>\<open>AttributeError\<close> before any condition on \<^verbatim>\<open>q\<close> is built, and the pattern is never
  used.
\<close>

definition apply_filters ::
  "Select \<Rightarrow> StatusEnum option \<Rightarrow> string option \<Rightarrow> error + Select" where
  "apply_filters stmt status' q =
     (let stmt1 = (case status' of
                     None \<Rightarrow> stmt
                   | Some st \<Rightarrow> stmt_where stmt (Status_eq st))
      in case q of
           None \<Rightarrow> Inr stmt1
         | Some qs \<Rightarrow> if qs = [] then Inr stmt1 else Inl AttributeError)"

definition list_tasks ::
  "store \<Rightarrow> StatusEnum option \<Rightarrow> string option \<Rightarrow> int \<Rightarrow> int \<Rightarrow> error + Task list" where
  "list_tasks s status' q limit offset =
     (let stmt = stmt_order_by select_Task created_at_desc
      in case apply_filters stmt status' q of
           Inl e \<Rightarrow> Inl e
         | Inr stmt1 \<Rightarrow> session_exec s (stmt_offset (stmt_limit stmt1 limit) offset))"

section \<open>create and get (src/main.py, lines 148-167)\<close>

text \<open>
  \<^verbatim>\<open>Task(...)\<close> fills \<^verbatim>\<open>id\<close>, \<^verbatim>\<open>created_at\<close> and \<^verbatim>\<open>updated_at\<close> from their default
  factories, in field order: one call of \<^verbatim>\<open>uuid4\<close> and two separate calls of
  \<^verbatim>\<open>datetime.utcnow\<close>.  The three results are inputs of the model.
  \<^verbatim>\<open>payload.status or StatusEnum.created\<close> takes the payload's status unless it is
  \<^verbatim>\<open>None\<close>.
\<close>

definition new_Task :: "TaskCreate \<Rightarrow> UUID \<Rightarrow> datetime \<Rightarrow> datetime \<Rightarrow> Task" where
  "new_Task payload uuid4 utcnow1 utcnow2 =
     \<lparr> id' = uuid4,
       title = c_title payload,
       description = c_description payload,
       status = (case c_status payload of None \<Rightarrow> created | Some st \<Rightarrow> st),
       created_at = utcnow1,
       updated_at = utcnow2 \<rparr>"

definition create_task ::
  "TaskCreate \<Rightarrow> UUID \<Rightarrow> datetime \<Rightarrow> datetime \<Rightarrow> store \<Rightarrow> error + (Task \<times> store)" where
  "create_task payload uuid4 utcnow1 utcnow2 s =
     (let task = new_Task payload uuid4 utcnow1 utcnow2 in
      case session_insert s task of
        Inl e \<Rightarrow> Inl e
      | Inr s' \<Rightarrow> (case session_refresh s' task of
                     Inl e \<Rightarrow> Inl e
                   | Inr task' \<Rightarrow> Inr (task', s')))"

definition get_task :: "UUID \<Rightarrow> store \<Rightarrow> error + Task" where
  "get_task task_id s =
     (case session_get s task_id of
        None \<Rightarrow> Inl NotFound
      | Some task \<Rightarrow> Inr task)"

section \<open>update and delete (src/main.py, lines 195-235)\<close>

text \<open>
  The three guarded assignments of \<^verbatim>\<open>update_task\<close>, each on the task and the flag
  \<^verbatim>\<open>updated\<close>.
\<close>

definition set_title :: "TaskUpdate \<Rightarrow> Task \<times> bool \<Rightarrow> Task \<times> bool" where
  "set_title payload tu =
     (case u_title payload of
        None \<Rightarrow> tu
      | Some x \<Rightarrow> if x \<noteq> title (fst tu) then ((fst tu)\<lparr>title := x\<rparr>, True) else tu)"

definition set_description :: "TaskUpdate \<Rightarrow> Task \<times> bool \<Rightarrow> Task \<times> bool" where
  "set_description payload tu =
     (case u_description payload of
        None \<Rightarrow> tu
      | Some x \<Rightarrow>
          if Some x \<noteq> description (fst tu) then ((fst tu)\<lparr>description := Some x\<rparr>, True)
          else tu)"

definition set_status :: "TaskUpdate \<Rightarrow> Task \<times> bool \<Rightarrow> Task \<times> bool" where
  "set_status payload tu =
     (case u_status payload of
        None \<Rightarrow> tu
      | Some x \<Rightarrow> if x \<noteq> status (fst tu) then ((fst tu)\<lparr>status := x\<rparr>, True) else tu)"

text \<open>\<^verbatim>\<open>utcnow\<close> is what \<^verbatim>\<open>datetime.utcnow()\<close> returns when the handler calls it.\<close>

definition update_task ::
  "UUID \<Rightarrow> TaskUpdate \<Rightarrow> datetime \<Rightarrow> store \<Rightarrow> error + (Task \<times> store)" where
  "update_task task_id payload utcnow s =
     (case session_get s task_id of
        None \<Rightarrow> Inl NotFound
      | Some task \<Rightarrow>
          (let tu = set_status payload (set_description payload (set_title payload (task, False)))
           in if snd tu then
                (let task1 = (fst tu)\<lparr>updated_at := utcnow\<rparr>;
                     s' = session_update s task1
                 in case session_refresh s' task1 of
                      Inl e \<Rightarrow> Inl e
                    | Inr task' \<Rightarrow> Inr (task', s'))
              else Inr (fst tu, s)))"

definition delete_task :: "UUID \<Rightarrow> store \<Rightarrow> error + store" where
  "delete_task task_id s =
     (case session_get s task_id of
        None \<Rightarrow> Inl NotFound
      | Some task \<Rightarrow> Inr (session_delete s task))"

section \<open>Sequences of requests\<close>

text \<open>
  A request carries, besides its arguments, the values the handler draws from its
  environment while it runs: the fresh UUID and the clock readings.  A handler that
  ends with an error has committed nothing, so the store is as before.
\<close>

datatype request =
    Create TaskCreate UUID datetime datetime
  | Get UUID
  | List "StatusEnum option" "string option" int int
  | Update UUID TaskUpdate datetime
  | Delete UUID

fun handle :: "store \<Rightarrow> request \<Rightarrow> store" where
  "handle s (Create payload uuid4 utcnow1 utcnow2) =
     (case create_task payload uuid4 utcnow1 utcnow2 s of
        Inl e \<Rightarrow> s
      | Inr (task, s') \<Rightarrow> s')"
| "handle s (Get task_id) = s"
| "handle s (List status' q limit offset) = s"
| "handle s (Update task_id payload utcnow) =
     (case update_task task_id payload utcnow s of
        Inl e \<Rightarrow> s
      | Inr (task, s') \<Rightarrow> s')"
| "handle s (Delete task_id) =
     (case delete_task task_id s of
        Inl e \<Rightarrow> s
      | Inr s' \<Rightarrow> s')"

text \<open>The clock readings of a request, in the order they are taken.\<close>

fun clock_readings :: "request \<Rightarrow> datetime list" where
  "clock_readings (Create payload uuid4 utcnow1 utcnow2) = [utcnow1, utcnow2]"
| "clock_readings (Update task_id payload utcnow) = [utcnow]"
| "clock_readings (Get task_id) = []"
| "clock_readings (List status' q limit offset) = []"
| "clock_readings (Delete task_id) = []"

definition run :: "store \<Rightarrow> request list \<Rightarrow> store" where
  "run s reqs = foldl handle s reqs"

text \<open>The primary key: no two rows share an id.\<close>

definition pk_unique :: "store \<Rightarrow> bool" where
  "pk_unique s = distinct (map id' s)"

text \<open>
  Every stored record has \<^verbatim>\<open>created_at\<close> no later than \<^verbatim>\<open>updated_at\<close>, and
  \<^verbatim>\<open>updated_at\<close> no later than the clock reading \<^verbatim>\<open>b\<close>.
\<close>

definition stamped_before :: "datetime \<Rightarrow> store \<Rightarrow> bool" where
  "stamped_before b s = list_all (\<lambda>t. created_at t \<le> updated_at t \<and> updated_at t \<le> b) s"

section \<open>Properties\<close>

lemma session_get_append_new:
  "id' t = k \<Longrightarrow> session_get s k = None \<Longrightarrow> session_get (s @ [t]) k = Some t"
  by (induction s) (auto simp: session_get_def split: if_splits)

lemma create_task_fresh:
  assumes "session_get s uuid4 = None"
  shows "create_task payload uuid4 n1 n2 s =
           Inr (new_Task payload uuid4 n1 n2, s @ [new_Task payload uuid4 n1 n2])"
proof -
  let ?t = "new_Task payload uuid4 n1 n2"
  have i: "id' ?t = uuid4" by (simp add: new_Task_def)
  with assms have "session_get (s @ [?t]) uuid4 = Some ?t"
    by (simp add: session_get_append_new)
  with assms i show ?thesis
    by (simp add: create_task_def session_insert_def session_refresh_def Let_def)
qed

lemma create_task_clash:
  "session_get s uuid4 \<noteq> None \<Longrightarrow> create_task payload uuid4 n1 n2 s = Inl IntegrityError"
  by (auto simp: create_task_def session_insert_def Let_def new_Task_def)

lemma session_get_SomeD: "session_get s k = Some t \<Longrightarrow> id' t = k \<and> t \<in> set s"
  by (auto simp: session_get_def find_Some_iff)

lemma session_get_None_iff: "session_get s k = None \<longleftrightarrow> k \<notin> id' ` set s"
  by (auto simp: session_get_def find_None_iff)

lemma session_get_update:
  "session_get s k = Some t \<Longrightarrow> id' t1 = k \<Longrightarrow> session_get (session_update s t1) k = Some t1"
  by (induction s) (auto simp: session_get_def session_update_def split: if_splits)

lemma session_get_update_other:
  "j \<noteq> id' t1 \<Longrightarrow> session_get (session_update s t1) j = session_get s j"
  by (induction s) (auto simp: session_get_def session_update_def split: if_splits)

lemma session_get_delete:
  "session_get (session_delete s t) (id' t) = None"
  by (auto simp: session_get_def session_delete_def find_None_iff)

lemma session_get_delete_other:
  "j \<noteq> id' t \<Longrightarrow> session_get (session_delete s t) j = session_get s j"
  by (induction s) (auto simp: session_get_def session_delete_def split: if_splits)

text \<open>What the three guarded assignments leave in the task and the flag.\<close>

lemma assignments_fst:
  "fst (set_status payload (set_description payload (set_title payload (task, False)))) =
     task\<lparr> title := (case u_title payload of None \<Rightarrow> title task | Some x \<Rightarrow> x),
           description := (case u_description payload of None \<Rightarrow> description task | Some x \<Rightarrow> Some x),
           status := (case u_status payload of None \<Rightarrow> status task | Some x \<Rightarrow> x) \<rparr>"
  by (auto simp: set_status_def set_description_def set_title_def split: option.splits)

lemma assignments_snd:
  "snd (set_status payload (set_description payload (set_title payload (task, False)))) =
     ((\<exists>x. u_title payload = Some x \<and> x \<noteq> title task) \<or>
      (\<exists>x. u_description payload = Some x \<and> Some x \<noteq> description task) \<or>
      (\<exists>x. u_status payload = Some x \<and> x \<noteq> status task))"
  by (auto simp: set_status_def set_description_def set_title_def split: option.splits)

lemma update_task_changed:
  assumes g: "session_get s k = Some task"
    and c: "snd (set_status payload (set_description payload (set_title payload (task, False))))"
  shows "update_task k payload now s =
           Inr ((fst (set_status payload (set_description payload (set_title payload (task, False)))))
                   \<lparr>updated_at := now\<rparr>,
                session_update s
                  ((fst (set_status payload (set_description payload (set_title payload (task, False)))))
                   \<lparr>updated_at := now\<rparr>))"
proof -
  let ?t1 = "(fst (set_status payload (set_description payload (set_title payload (task, False)))))
                   \<lparr>updated_at := now\<rparr>"
  have k: "id' task = k" using g by (simp add: session_get_SomeD)
  have "id' ?t1 = k" by (simp add: assignments_fst k)
  with g have "session_get (session_update s ?t1) (id' ?t1) = Some ?t1"
    by (simp add: session_get_update)
  then have "session_refresh (session_update s ?t1) ?t1 = Inr ?t1"
    by (simp add: session_refresh_def)
  with g c show ?thesis
    by (simp add: update_task_def Let_def)
qed

lemma update_task_unchanged:
  assumes g: "session_get s k = Some task"
    and c: "\<not> snd (set_status payload (set_description payload (set_title payload (task, False))))"
  shows "update_task k payload now s = Inr (task, s)"
proof -
  from c have "fst (set_status payload (set_description payload (set_title payload (task, False)))) = task"
    by (auto simp: set_status_def set_description_def set_title_def split: option.splits if_splits)
  with g c show ?thesis
    by (simp add: update_task_def Let_def)
qed

subsection \<open>Create, then get\<close>

text \<open>
  Claim C1, as the code has it.  A create with a fresh id succeeds, and the get that
  follows returns the created record: its title and description are the payload's, its
  status is the payload's, or \<^verbatim>\<open>created\<close> when the payload has none, and
  \<^verbatim>\<open>created_at\<close> and \<^verbatim>\<open>updated_at\<close> are the first and the second clock reading taken
  while the record was built.  The two timestamps are equal exactly when the two
  readings are.
\<close>

theorem create_then_get:
  assumes "session_get s uuid4 = None"
  shows "case create_task payload uuid4 utcnow1 utcnow2 s of
           Inl e \<Rightarrow> False
         | Inr (task, s') \<Rightarrow>
             get_task uuid4 s' = Inr task
           \<and> title task = c_title payload
           \<and> description task = c_description payload
           \<and> status task = (case c_status payload of None \<Rightarrow> created | Some st \<Rightarrow> st)
           \<and> created_at task = utcnow1
           \<and> updated_at task = utcnow2
           \<and> (created_at task = updated_at task \<longleftrightarrow> utcnow1 = utcnow2)"
proof -
  let ?t = "new_Task payload uuid4 utcnow1 utcnow2"
  have c: "create_task payload uuid4 utcnow1 utcnow2 s = Inr (?t, s @ [?t])"
    using assms by (rule create_task_fresh)
  have "id' ?t = uuid4" by (simp add: new_Task_def)
  with assms have "session_get (s @ [?t]) uuid4 = Some ?t"
    by (simp add: session_get_append_new)
  then have g: "get_task uuid4 (s @ [?t]) = Inr ?t"
    by (simp add: get_task_def)
  show ?thesis
    unfolding c using g by (simp add: new_Task_def)
qed

theorem create_then_get_witness:
  "session_get [] 1 = None \<and>
   (case create_task \<lparr>c_title = ''Buy milk'', c_description = None, c_status = None\<rparr> 1 10 10 [] of
      Inl e \<Rightarrow> False
    | Inr (task, s') \<Rightarrow>
        get_task 1 s' = Inr task \<and> title task = ''Buy milk'' \<and> description task = None
      \<and> status task = created \<and> created_at task = 10 \<and> updated_at task = 10
      \<and> created_at task = updated_at task)"
  using create_then_get
    [of "[]" 1 "\<lparr>c_title = ''Buy milk'', c_description = None, c_status = None\<rparr>" 10 10]
  by (simp add: session_get_def split: sum.splits prod.splits)

text \<open>
  Claim C1 as the specification words it asks for equal timestamps after every create.
  With the readings 10 and 11 the created record, as get returns it, has
  \<^verbatim>\<open>created_at = 10\<close> and \<^verbatim>\<open>updated_at = 11\<close>.
\<close>

theorem create_timestamps_differ:
  "create_task \<lparr>c_title = ''Buy milk'', c_description = None, c_status = None\<rparr> 1 10 11 []
     = Inr (\<lparr>id' = 1, title = ''Buy milk'', description = None, status = created,
              created_at = 10, updated_at = 11\<rparr>,
            [\<lparr>id' = 1, title = ''Buy milk'', description = None, status = created,
              created_at = 10, updated_at = 11\<rparr>])
   \<and> get_task 1 [\<lparr>id' = 1, title = ''Buy milk'', description = None, status = created,
              created_at = 10, updated_at = 11\<rparr>]
     = Inr \<lparr>id' = 1, title = ''Buy milk'', description = None, status = created,
              created_at = 10, updated_at = 11\<rparr>
   \<and> created_at \<lparr>id' = 1, title = ''Buy milk'', description = None, status = created,
              created_at = 10, updated_at = 11\<rparr>
     \<noteq> updated_at \<lparr>id' = 1, title = ''Buy milk'', description = None, status = created,
              created_at = 10, updated_at = 11\<rparr>"
  by (simp add: create_task_def new_Task_def session_insert_def session_refresh_def
      session_get_def get_task_def Let_def)

subsection \<open>Update\<close>

lemma update_task_result:
  assumes g: "session_get s task_id = Some task"
    and ch: "changed =
       ((\<exists>x. u_title payload = Some x \<and> x \<noteq> title task) \<or>
        (\<exists>x. u_description payload = Some x \<and> Some x \<noteq> description task) \<or>
        (\<exists>x. u_status payload = Some x \<and> x \<noteq> status task))"
  shows "case update_task task_id payload utcnow s of
           Inl e \<Rightarrow> False
         | Inr (task', s') \<Rightarrow>
             title task' =
               (case u_title payload of
                  None \<Rightarrow> title task
                | Some x \<Rightarrow> if x \<noteq> title task then x else title task)
           \<and> description task' =
               (case u_description payload of
                  None \<Rightarrow> description task
                | Some x \<Rightarrow> if Some x \<noteq> description task then Some x else description task)
           \<and> status task' =
               (case u_status payload of
                  None \<Rightarrow> status task
                | Some x \<Rightarrow> if x \<noteq> status task then x else status task)
           \<and> id' task' = id' task
           \<and> created_at task' = created_at task
           \<and> updated_at task' = (if changed then utcnow else updated_at task)
           \<and> (changed \<and> updated_at task \<le> utcnow \<longrightarrow> updated_at task \<le> updated_at task')
           \<and> session_get s' task_id = Some task'
           \<and> s' = (if changed then map (\<lambda>t. if id' t = task_id then task' else t) s else s)"
proof (cases changed)
  case True
  let ?tu = "set_status payload (set_description payload (set_title payload (task, False)))"
  let ?t1 = "(fst ?tu)\<lparr>updated_at := utcnow\<rparr>"
  from True ch have c: "snd ?tu" by (simp add: assignments_snd)
  have u: "update_task task_id payload utcnow s = Inr (?t1, session_update s ?t1)"
    using g c by (rule update_task_changed)
  have k: "id' task = task_id" using g by (simp add: session_get_SomeD)
  then have i: "id' ?t1 = task_id" by (simp add: assignments_fst)
  with g have p: "session_get (session_update s ?t1) task_id = Some ?t1"
    by (simp add: session_get_update)
  have m: "session_update s ?t1 = map (\<lambda>t. if id' t = task_id then ?t1 else t) s"
    unfolding session_update_def i ..
  show ?thesis
    unfolding u using True p m k
    by (simp add: assignments_fst split: option.splits)
next
  case False
  let ?tu = "set_status payload (set_description payload (set_title payload (task, False)))"
  from False ch have c: "\<not> snd ?tu" by (simp add: assignments_snd)
  have u: "update_task task_id payload utcnow s = Inr (task, s)"
    using g c by (rule update_task_unchanged)
  show ?thesis
    unfolding u using False ch g by (auto split: option.splits)
qed

text \<open>
  Claim C4.  An update of an existing task in which every field is absent or equal to
  the stored value returns the stored record and leaves the store as it was,
  \<^verbatim>\<open>updated_at\<close> included.
\<close>

theorem update_no_change:
  assumes "session_get s task_id = Some task"
    and "u_title payload = None \<or> u_title payload = Some (title task)"
    and "u_description payload = None \<or> u_description payload = description task"
    and "u_status payload = None \<or> u_status payload = Some (status task)"
  shows "update_task task_id payload utcnow s = Inr (task, s)"
proof -
  have "\<not> snd (set_status payload (set_description payload (set_title payload (task, False))))"
    using assms(2-4) by (auto simp: assignments_snd)
  with assms(1) show ?thesis by (rule update_task_unchanged)
qed

theorem update_no_change_witness:
  "session_get [\<lparr>id' = 1, title = ''Buy milk'', description = None, status = created,
                  created_at = 10, updated_at = 11\<rparr>] 1
     = Some \<lparr>id' = 1, title = ''Buy milk'', description = None, status = created,
              created_at = 10, updated_at = 11\<rparr>
   \<and> update_task 1 \<lparr>u_title = Some ''Buy milk'', u_description = None, u_status = None\<rparr> 50
        [\<lparr>id' = 1, title = ''Buy milk'', description = None, status = created,
           created_at = 10, updated_at = 11\<rparr>]
     = Inr (\<lparr>id' = 1, title = ''Buy milk'', description = None, status = created,
              created_at = 10, updated_at = 11\<rparr>,
            [\<lparr>id' = 1, title = ''Buy milk'', description = None, status = created,
               created_at = 10, updated_at = 11\<rparr>])"
  using update_no_change
    [of "[\<lparr>id' = 1, title = ''Buy milk'', description = None, status = created,
            created_at = 10, updated_at = 11\<rparr>]" 1
        "\<lparr>id' = 1, title = ''Buy milk'', description = None, status = created,
            created_at = 10, updated_at = 11\<rparr>"
        "\<lparr>u_title = Some ''Buy milk'', u_description = None, u_status = None\<rparr>" 50]
  by (simp add: session_get_def)

text \<open>
  Claim C10.  An update whose description is absent leaves the stored description as
  it was, and no update turns a description that is not null into null.
\<close>

theorem update_keeps_description:
  assumes "session_get s task_id = Some task"
  shows "case update_task task_id payload utcnow s of
           Inl e \<Rightarrow> False
         | Inr (task', s') \<Rightarrow>
             session_get s' task_id = Some task'
           \<and> (u_description payload = None \<longrightarrow> description task' = description task)
           \<and> (description task \<noteq> None \<longrightarrow> description task' \<noteq> None)"
  using update_task_result [OF assms refl, of payload utcnow]
  by (auto split: sum.splits option.splits if_splits)

theorem update_keeps_description_witness:
  "session_get [\<lparr>id' = 2, title = ''Walk dog'', description = Some ''park'', status = completed,
      created_at = 20, updated_at = 20\<rparr>] 2 = Some \<lparr>id' = 2, title = ''Walk dog'', description = Some ''park'', status = completed,
      created_at = 20, updated_at = 20\<rparr>
   \<and> (case update_task 2 \<lparr>u_title = Some ''Walk the dog'', u_description = None,
                          u_status = None\<rparr> 50 [\<lparr>id' = 2, title = ''Walk dog'', description = Some ''park'', status = completed,
      created_at = 20, updated_at = 20\<rparr>] of
        Inl e \<Rightarrow> False
      | Inr (task', s') \<Rightarrow>
          session_get s' 2 = Some task' \<and> description task' = Some ''park'')"
  using update_keeps_description
    [of "[\<lparr>id' = 2, title = ''Walk dog'', description = Some ''park'', status = completed,
      created_at = 20, updated_at = 20\<rparr>]" 2 "\<lparr>id' = 2, title = ''Walk dog'', description = Some ''park'', status = completed,
      created_at = 20, updated_at = 20\<rparr>" "\<lparr>u_title = Some ''Walk the dog'', u_description = None, u_status = None\<rparr>" 50]
  by (simp add: session_get_def split: sum.splits prod.splits)

subsection \<open>Not found\<close>



subsection \<open>The primary key\<close>

text \<open>No request makes two rows share an id.\<close>

lemma map_id_replace:
  "id' task' = k \<Longrightarrow> map id' (map (\<lambda>t. if id' t = k then task' else t) s) = map id' s"
  by (induction s) auto

lemma handle_update_ids: "map id' (handle s (Update k payload n)) = map id' s"
proof (cases "session_get s k")
  case None
  then show ?thesis by (simp add: update_task_def)
next
  case (Some task)
  obtain task' s' where u: "update_task k payload n s = Inr (task', s')"
    using update_task_result [OF Some refl, of payload n]
    by (cases "update_task k payload n s") auto
  from update_task_result [OF Some refl, of payload n]
  have i: "id' task' = id' task"
    and c: "s' = s \<or> s' = map (\<lambda>t. if id' t = k then task' else t) s"
    unfolding u by (simp_all split: if_splits)
  have "id' task = k" using Some by (simp add: session_get_SomeD)
  with i have "id' task' = k" by simp
  with c have "map id' s' = map id' s" by (auto simp: map_id_replace)
  with u show ?thesis by simp
qed

lemma pk_unique_handle: "pk_unique s \<Longrightarrow> pk_unique (handle s r)"
proof (cases r)
  case (Create payload uuid4 n1 n2)
  show ?thesis if "pk_unique s"
  proof (cases "session_get s uuid4")
    case None
    then have "uuid4 \<notin> id' ` set s" by (simp add: session_get_None_iff)
    with that None Create show ?thesis
      by (simp add: create_task_fresh pk_unique_def new_Task_def)
  next
    case (Some a)
    with that Create show ?thesis by (simp add: create_task_clash)
  qed
next
  case (Update k payload n)
  then show ?thesis if "pk_unique s"
    using that by (simp only: pk_unique_def handle_update_ids)
next
  case (Delete k)
  then show ?thesis if "pk_unique s"
    using that
    by (auto simp: pk_unique_def delete_task_def session_delete_def distinct_map_filter
        split: option.splits)
qed simp_all

lemma pk_unique_run: "pk_unique s \<Longrightarrow> pk_unique (run s reqs)"
  unfolding run_def by (induction reqs arbitrary: s) (simp_all add: pk_unique_handle)

lemma pk_unique_reachable: "pk_unique (run [] reqs)"
  by (rule pk_unique_run) (simp add: pk_unique_def)

subsection \<open>Delete\<close>

lemma filter_other_ids:
  "distinct (map id' s) \<Longrightarrow> t \<in> set s \<Longrightarrow> filter (\<lambda>x. id' x \<noteq> id' t) s = remove1 t s"
proof (induction s)
  case Nil
  then show ?case by simp
next
  case (Cons a s)
  show ?case
  proof (cases "a = t")
    case True
    with Cons.prems have "id' t \<notin> id' ` set s" by simp
    then have "\<forall>x\<in>set s. id' x \<noteq> id' t" by (metis imageI)
    then have "filter (\<lambda>x. id' x \<noteq> id' t) s = s" by (simp add: filter_id_conv)
    with True show ?thesis by simp
  next
    case False
    with Cons.prems have "t \<in> set s" "id' a \<noteq> id' t" "distinct (map id' s)" by auto
    with Cons.IH False show ?thesis by simp
  qed
qed

text \<open>
  Claim C8.  Deleting an existing task succeeds and removes exactly its row: the other
  rows stay, in their order, and every other id reads as before.  A get of the deleted
  id then ends with \<^verbatim>\<open>NotFound\<close>.
\<close>

theorem delete_then_get:
  assumes g: "session_get s task_id = Some task" and pk: "pk_unique s"
  shows "case delete_task task_id s of
           Inl e \<Rightarrow> False
         | Inr s' \<Rightarrow>
             s' = filter (\<lambda>t. id' t \<noteq> task_id) s
           \<and> mset s = add_mset task (mset s')
           \<and> get_task task_id s' = Inl NotFound
           \<and> (\<forall>j. j \<noteq> task_id \<longrightarrow> session_get s' j = session_get s j)"
proof -
  from g have k: "id' task = task_id" and m: "task \<in> set s"
    by (simp_all add: session_get_SomeD)
  have d: "delete_task task_id s = Inr (session_delete s task)"
    using g by (simp add: delete_task_def)
  have f: "session_delete s task = filter (\<lambda>t. id' t \<noteq> task_id) s"
    by (simp add: session_delete_def k)
  have "session_delete s task = remove1 task s"
    using pk m by (simp add: session_delete_def pk_unique_def filter_other_ids)
  then have ms: "mset s = add_mset task (mset (session_delete s task))"
    using m by simp
  have n: "get_task task_id (session_delete s task) = Inl NotFound"
    using session_get_delete [of s task] by (simp add: get_task_def k)
  have o: "\<forall>j. j \<noteq> task_id \<longrightarrow> session_get (session_delete s task) j = session_get s j"
    using k by (simp add: session_get_delete_other)
  show ?thesis
    unfolding d using f ms n o by simp
qed

theorem delete_then_get_witness:
  "session_get [\<lparr>id' = 1, title = ''Buy milk'', description = None, status = created,
      created_at = 10, updated_at = 11\<rparr>, \<lparr>id' = 2, title = ''Walk dog'', description = Some ''park'', status = completed,
      created_at = 20, updated_at = 20\<rparr>] 1 = Some \<lparr>id' = 1, title = ''Buy milk'', description = None, status = created,
      created_at = 10, updated_at = 11\<rparr> \<and> pk_unique [\<lparr>id' = 1, title = ''Buy milk'', description = None, status = created,
      created_at = 10, updated_at = 11\<rparr>, \<lparr>id' = 2, title = ''Walk dog'', description = Some ''park'', status = completed,
      created_at = 20, updated_at = 20\<rparr>]
   \<and> delete_task 1 [\<lparr>id' = 1, title = ''Buy milk'', description = None, status = created,
      created_at = 10, updated_at = 11\<rparr>, \<lparr>id' = 2, title = ''Walk dog'', description = Some ''park'', status = completed,
      created_at = 20, updated_at = 20\<rparr>] = Inr [\<lparr>id' = 2, title = ''Walk dog'', description = Some ''park'', status = completed,
      created_at = 20, updated_at = 20\<rparr>]
   \<and> get_task 1 [\<lparr>id' = 2, title = ''Walk dog'', description = Some ''park'', status = completed,
      created_at = 20, updated_at = 20\<rparr>] = Inl NotFound
   \<and> session_get [\<lparr>id' = 2, title = ''Walk dog'', description = Some ''park'', status = completed,
      created_at = 20, updated_at = 20\<rparr>] 2 = session_get [\<lparr>id' = 1, title = ''Buy milk'', description = None, status = created,
      created_at = 10, updated_at = 11\<rparr>, \<lparr>id' = 2, title = ''Walk dog'', description = Some ''park'', status = completed,
      created_at = 20, updated_at = 20\<rparr>] 2"
  using delete_then_get [of "[\<lparr>id' = 1, title = ''Buy milk'', description = None, status = created,
      created_at = 10, updated_at = 11\<rparr>, \<lparr>id' = 2, title = ''Walk dog'', description = Some ''park'', status = completed,
      created_at = 20, updated_at = 20\<rparr>]" 1 "\<lparr>id' = 1, title = ''Buy milk'', description = None, status = created,
      created_at = 10, updated_at = 11\<rparr>"]
  by (simp add: session_get_def pk_unique_def get_task_def split: sum.splits)

subsection \<open>Timestamps along a sequence of requests\<close>

lemma stamped_before_mono: "stamped_before b s \<Longrightarrow> b \<le> c \<Longrightarrow> stamped_before c s"
  by (auto simp: stamped_before_def list_all_iff)

lemma handle_create_cases:
  "handle s (Create payload uuid4 n1 n2) = s \<or>
   handle s (Create payload uuid4 n1 n2) = s @ [new_Task payload uuid4 n1 n2]"
  by (cases "session_get s uuid4") (simp_all add: create_task_fresh create_task_clash)

lemma handle_update_cases:
  "handle s (Update task_id payload n) = s \<or>
   (\<exists>task task'. task \<in> set s \<and> created_at task' = created_at task \<and> updated_at task' = n \<and>
      handle s (Update task_id payload n) = map (\<lambda>t. if id' t = task_id then task' else t) s)"
proof (cases "session_get s task_id")
  case None
  then show ?thesis by (simp add: update_task_def)
next
  case (Some task)
  have m: "task \<in> set s" using Some by (simp add: session_get_SomeD)
  show ?thesis
    using update_task_result [OF Some refl, of payload n] m
    by (auto split: sum.splits if_splits)
qed

lemma stamped_before_handle:
  assumes "stamped_before b s" and "sorted (b # clock_readings r)"
  shows "stamped_before (last (b # clock_readings r)) (handle s r)"
proof (cases r)
  case (Create payload uuid4 n1 n2)
  with assms(2) have le: "b \<le> n1" "n1 \<le> n2" by simp_all
  then have "stamped_before n2 s" using assms(1) by (auto intro: stamped_before_mono)
  moreover have "stamped_before n2 (s @ [new_Task payload uuid4 n1 n2])"
    using \<open>stamped_before n2 s\<close> le by (simp add: stamped_before_def new_Task_def)
  ultimately show ?thesis
    using handle_create_cases [of s payload uuid4 n1 n2] Create by auto
next
  case (Get k)
  with assms(1) show ?thesis by simp
next
  case (List st q l off)
  with assms(1) show ?thesis by simp
next
  case (Update k payload n)
  with assms(2) have le: "b \<le> n" by simp
  then have sn: "stamped_before n s" using assms(1) by (rule stamped_before_mono [rotated])
  have "stamped_before n (handle s (Update k payload n))"
    using handle_update_cases [of s k payload n]
  proof
    assume "handle s (Update k payload n) = s"
    with sn show ?thesis by simp
  next
    assume "\<exists>task task'. task \<in> set s \<and> created_at task' = created_at task \<and>
      updated_at task' = n \<and>
      handle s (Update k payload n) = map (\<lambda>t. if id' t = k then task' else t) s"
    then obtain task task' where t: "task \<in> set s" "created_at task' = created_at task"
      "updated_at task' = n"
      and h: "handle s (Update k payload n) = map (\<lambda>t. if id' t = k then task' else t) s"
      by blast
    from t(1) sn have "created_at task \<le> n"
      by (auto simp: stamped_before_def list_all_iff)
    with t sn show ?thesis
      unfolding h by (auto simp: stamped_before_def list_all_iff)
  qed
  with Update show ?thesis by simp
next
  case (Delete k)
  have "set (handle s (Delete k)) \<subseteq> set s"
    by (auto simp: delete_task_def session_delete_def split: option.splits)
  with assms(1) Delete show ?thesis
    by (auto simp: stamped_before_def list_all_iff)
qed

lemma sorted_Cons_append_last:
  "sorted (b # xs @ ys) \<Longrightarrow> sorted (b # xs) \<and> sorted (last (b # xs) # ys)"
  by (induction xs arbitrary: b) (auto simp: sorted_append)

lemma stamped_before_run:
  "stamped_before b s \<Longrightarrow> sorted (b # concat (map clock_readings reqs)) \<Longrightarrow>
   \<exists>c. stamped_before c (run s reqs)"
proof (induction reqs arbitrary: b s)
  case Nil
  then show ?case by (auto simp: run_def)
next
  case (Cons r reqs)
  from Cons.prems(2)
  have "sorted (b # clock_readings r @ concat (map clock_readings reqs))" by simp
  then have a: "sorted (b # clock_readings r)"
    and c: "sorted (last (b # clock_readings r) # concat (map clock_readings reqs))"
    by (simp_all only: sorted_Cons_append_last)
  from Cons.prems(1) a
  have "stamped_before (last (b # clock_readings r)) (handle s r)"
    by (rule stamped_before_handle)
  from Cons.IH [OF this c] show ?case by (simp add: run_def)
qed

text \<open>
  Claim C9.  Start from the empty store and serve any sequence of requests.  When the
  clock never goes back, that is, when the readings taken along the sequence are in
  ascending order, every record in the store has \<^verbatim>\<open>created_at\<close> no later than
  \<^verbatim>\<open>updated_at\<close>.
\<close>

theorem created_before_updated:
  assumes "sorted (concat (map clock_readings reqs))"
    and "task \<in> set (run [] reqs)"
  shows "created_at task \<le> updated_at task"
proof -
  define rs where "rs = concat (map clock_readings reqs)"
  from assms(1) have "sorted rs" by (simp add: rs_def)
  then have "\<exists>b. sorted (b # rs)" by (cases rs) auto
  then obtain b where b: "sorted (b # concat (map clock_readings reqs))"
    unfolding rs_def ..
  have "stamped_before b []" by (simp add: stamped_before_def)
  from stamped_before_run [OF this b]
  obtain c where "stamped_before c (run [] reqs)" ..
  with assms(2) show ?thesis
    by (auto simp: stamped_before_def list_all_iff)
qed

theorem created_before_updated_witness:
  "sorted (concat (map clock_readings
      [Create \<lparr>c_title = ''Buy milk'', c_description = None, c_status = None\<rparr> 1 10 11,
       Update 1 \<lparr>u_title = None, u_description = None, u_status = Some completed\<rparr> 50]))
   \<and> \<lparr>id' = 1, title = ''Buy milk'', description = None, status = completed,
      created_at = 10, updated_at = 50\<rparr> \<in> set (run []
      [Create \<lparr>c_title = ''Buy milk'', c_description = None, c_status = None\<rparr> 1 10 11,
       Update 1 \<lparr>u_title = None, u_description = None, u_status = Some completed\<rparr> 50])
   \<and> created_at \<lparr>id' = 1, title = ''Buy milk'', description = None, status = completed,
      created_at = 10, updated_at = 50\<rparr> \<le> updated_at \<lparr>id' = 1, title = ''Buy milk'', description = None, status = completed,
      created_at = 10, updated_at = 50\<rparr>"
  using created_before_updated
    [of "[Create \<lparr>c_title = ''Buy milk'', c_description = None, c_status = None\<rparr> 1 10 11,
       Update 1 \<lparr>u_title = None, u_description = None, u_status = Some completed\<rparr> 50]" "\<lparr>id' = 1, title = ''Buy milk'', description = None, status = completed,
      created_at = 10, updated_at = 50\<rparr>"]
  by (simp add: run_def create_task_def new_Task_def session_insert_def session_refresh_def
      session_get_def update_task_def set_title_def set_description_def set_status_def
      session_update_def Let_def)

subsection \<open>Update and the clock\<close>

lemma last_Cons_append: "last (b # xs @ ys) = last (last (b # xs) # ys)"
  by (cases ys) simp_all

lemma stamped_before_run_last:
  "stamped_before b s \<Longrightarrow> sorted (b # concat (map clock_readings reqs)) \<Longrightarrow>
   stamped_before (last (b # concat (map clock_readings reqs))) (run s reqs)"
proof (induction reqs arbitrary: b s)
  case Nil
  then show ?case by (simp add: run_def)
next
  case (Cons r reqs)
  let ?rs = "concat (map clock_readings reqs)"
  from Cons.prems(2) have "sorted (b # clock_readings r @ ?rs)" by simp
  then have a: "sorted (b # clock_readings r)"
    and c: "sorted (last (b # clock_readings r) # ?rs)"
    by (simp_all only: sorted_Cons_append_last)
  from Cons.prems(1) a
  have "stamped_before (last (b # clock_readings r)) (handle s r)"
    by (rule stamped_before_handle)
  from Cons.IH [OF this c]
  have "stamped_before (last (last (b # clock_readings r) # ?rs)) (run (handle s r) reqs)" .
  then have "stamped_before (last (b # clock_readings r @ ?rs)) (run (handle s r) reqs)"
    by (simp only: last_Cons_append)
  then show ?case by (simp add: run_def)
qed

text \<open>
  In a store reached from the empty one, no \<^verbatim>\<open>updated_at\<close> is later than a clock
  reading that follows every reading taken so far.
\<close>

lemma reachable_stamped:
  assumes "sorted (concat (map clock_readings reqs) @ [n])"
    and "t \<in> set (run [] reqs)"
  shows "updated_at t \<le> n"
proof -
  define rs where "rs = concat (map clock_readings reqs)"
  from assms(1) have srt: "sorted (rs @ [n])" by (simp add: rs_def)
  have "\<exists>b. sorted (b # rs) \<and> last (b # rs) \<le> n"
  proof (cases rs)
    case Nil
    then have "sorted (n # rs) \<and> last (n # rs) \<le> n" by simp
    then show ?thesis ..
  next
    case (Cons x xs)
    from srt have "sorted rs" and "\<forall>y\<in>set rs. y \<le> n" by (simp_all add: sorted_append)
    with Cons have "sorted (x # rs) \<and> last (x # rs) \<le> n" by auto
    then show ?thesis ..
  qed
  then obtain b where b: "sorted (b # concat (map clock_readings reqs))"
    and l: "last (b # concat (map clock_readings reqs)) \<le> n"
    unfolding rs_def by blast
  have "stamped_before b []" by (simp add: stamped_before_def)
  from stamped_before_run_last [OF this b]
  have "stamped_before n (run [] reqs)" using l by (rule stamped_before_mono)
  with assms(2) show ?thesis by (auto simp: stamped_before_def list_all_iff)
qed

text \<open>
  Claim C3, as the code has it.  An update of an existing task succeeds.  Each of title,
  description and status takes the payload's value exactly when the payload has one
  and it differs from the stored one, and keeps the stored value otherwise.  When at
  least one field was so overwritten, \<^verbatim>\<open>updated_at\<close> is the clock reading of the
  update, and the row of that id in the store is the returned record.  When the store
  was reached from the empty one by requests whose clock readings, followed by the
  reading of this update, are in ascending order, the new \<^verbatim>\<open>updated_at\<close> is no earlier
  than the previous one.
\<close>

theorem update_overwrites:
  assumes "session_get s task_id = Some task"
  shows "let changed =
           ((\<exists>x. u_title payload = Some x \<and> x \<noteq> title task) \<or>
            (\<exists>x. u_description payload = Some x \<and> Some x \<noteq> description task) \<or>
            (\<exists>x. u_status payload = Some x \<and> x \<noteq> status task))
         in case update_task task_id payload utcnow s of
           Inl e \<Rightarrow> False
         | Inr (task', s') \<Rightarrow>
             title task' =
               (case u_title payload of
                  None \<Rightarrow> title task
                | Some x \<Rightarrow> if x \<noteq> title task then x else title task)
           \<and> description task' =
               (case u_description payload of
                  None \<Rightarrow> description task
                | Some x \<Rightarrow> if Some x \<noteq> description task then Some x else description task)
           \<and> status task' =
               (case u_status payload of
                  None \<Rightarrow> status task
                | Some x \<Rightarrow> if x \<noteq> status task then x else status task)
           \<and> id' task' = id' task
           \<and> created_at task' = created_at task
           \<and> updated_at task' = (if changed then utcnow else updated_at task)
           \<and> session_get s' task_id = Some task'
           \<and> s' = (if changed then map (\<lambda>t. if id' t = task_id then task' else t) s else s)
           \<and> (\<forall>reqs. s = run [] reqs \<and> sorted (concat (map clock_readings reqs) @ [utcnow])
                 \<longrightarrow> updated_at task \<le> updated_at task')"
proof -
  have m: "updated_at task \<le> utcnow"
    if "s = run [] reqs" and "sorted (concat (map clock_readings reqs) @ [utcnow])" for reqs
  proof -
    from assms that(1) have "task \<in> set (run [] reqs)" by (simp add: session_get_SomeD)
    with that(2) show ?thesis by (rule reachable_stamped)
  qed
  show ?thesis
    unfolding Let_def
    using update_task_result [OF assms refl, of payload utcnow] m
    by (auto split: sum.splits)
qed

theorem update_overwrites_witness:
  "session_get [\<lparr>id' = 1, title = ''Buy milk'', description = None, status = created,
      created_at = 10, updated_at = 11\<rparr>] 1 = Some \<lparr>id' = 1, title = ''Buy milk'', description = None, status = created,
      created_at = 10, updated_at = 11\<rparr>
   \<and> [\<lparr>id' = 1, title = ''Buy milk'', description = None, status = created,
      created_at = 10, updated_at = 11\<rparr>] = run [] [Create \<lparr>c_title = ''Buy milk'', c_description = None, c_status = None\<rparr> 1 10 11]
   \<and> sorted (concat (map clock_readings [Create \<lparr>c_title = ''Buy milk'', c_description = None, c_status = None\<rparr> 1 10 11]) @ [50])
   \<and> (case update_task 1 \<lparr>u_title = Some ''Buy milk'', u_description = None, u_status = Some completed\<rparr> 50 [\<lparr>id' = 1, title = ''Buy milk'', description = None, status = created,
      created_at = 10, updated_at = 11\<rparr>] of
        Inl e \<Rightarrow> False
      | Inr (task', s') \<Rightarrow>
          title task' = ''Buy milk'' \<and> description task' = None \<and> status task' = completed
        \<and> id' task' = 1 \<and> created_at task' = 10 \<and> updated_at task' = 50
        \<and> session_get s' 1 = Some task' \<and> s' = [task']
        \<and> updated_at \<lparr>id' = 1, title = ''Buy milk'', description = None, status = created,
      created_at = 10, updated_at = 11\<rparr> \<le> updated_at task')"
proof -
  have g: "session_get [\<lparr>id' = 1, title = ''Buy milk'', description = None, status = created,
      created_at = 10, updated_at = 11\<rparr>] 1 = Some \<lparr>id' = 1, title = ''Buy milk'', description = None, status = created,
      created_at = 10, updated_at = 11\<rparr>"
    by (simp add: session_get_def)
  have r: "[\<lparr>id' = 1, title = ''Buy milk'', description = None, status = created,
      created_at = 10, updated_at = 11\<rparr>] = run [] [Create \<lparr>c_title = ''Buy milk'', c_description = None, c_status = None\<rparr> 1 10 11]"
    by (simp add: run_def create_task_def new_Task_def session_insert_def session_refresh_def
        session_get_def Let_def)
  have c: "sorted (concat (map clock_readings [Create \<lparr>c_title = ''Buy milk'', c_description = None, c_status = None\<rparr> 1 10 11]) @ [50])"
    by simp
  note u = update_overwrites [OF g, of "\<lparr>u_title = Some ''Buy milk'', u_description = None, u_status = Some completed\<rparr>" 50]
  obtain task' s' where e: "update_task 1 \<lparr>u_title = Some ''Buy milk'', u_description = None, u_status = Some completed\<rparr> 50 [\<lparr>id' = 1, title = ''Buy milk'', description = None, status = created,
      created_at = 10, updated_at = 11\<rparr>] = Inr (task', s')"
    using u by (cases "update_task 1 \<lparr>u_title = Some ''Buy milk'', u_description = None, u_status = Some completed\<rparr> 50 [\<lparr>id' = 1, title = ''Buy milk'', description = None, status = created,
      created_at = 10, updated_at = 11\<rparr>]") (auto simp: Let_def)
  from u have f: "title task' = ''Buy milk'' \<and> description task' = None
      \<and> status task' = completed \<and> id' task' = 1 \<and> created_at task' = 10
      \<and> updated_at task' = 50 \<and> session_get s' 1 = Some task' \<and> s' = [task']"
    unfolding e by (auto simp: Let_def session_get_def)
  from u have "\<forall>reqs. [\<lparr>id' = 1, title = ''Buy milk'', description = None, status = created,
      created_at = 10, updated_at = 11\<rparr>] = run [] reqs
        \<and> sorted (concat (map clock_readings reqs) @ [50])
      \<longrightarrow> updated_at \<lparr>id' = 1, title = ''Buy milk'', description = None, status = created,
      created_at = 10, updated_at = 11\<rparr> \<le> updated_at task'"
    unfolding e Let_def by simp
  with r c have "updated_at \<lparr>id' = 1, title = ''Buy milk'', description = None, status = created,
      created_at = 10, updated_at = 11\<rparr> \<le> updated_at task'"
    by blast
  with f have d: "case Inr (task', s') of
        Inl e \<Rightarrow> False
      | Inr (task', s') \<Rightarrow>
          title task' = ''Buy milk'' \<and> description task' = None \<and> status task' = completed
        \<and> id' task' = 1 \<and> created_at task' = 10 \<and> updated_at task' = 50
        \<and> session_get s' 1 = Some task' \<and> s' = [task']
        \<and> updated_at \<lparr>id' = 1, title = ''Buy milk'', description = None, status = created,
      created_at = 10, updated_at = 11\<rparr> \<le> updated_at task'"
    by (auto simp: session_get_def)
  from g r c d show ?thesis
    unfolding e by (intro conjI)
qed

text \<open>
  Claim C3 as the specification words it asks for an \<^verbatim>\<open>updated_at\<close> no earlier than
  the previous one after every update that changes a field.  When the clock reads 5 at
  an update of a task stamped 11, the status changes and the new \<^verbatim>\<open>updated_at\<close> is 5.
\<close>

theorem update_clock_back:
  "session_get [\<lparr>id' = 1, title = ''Buy milk'', description = None, status = created,
      created_at = 10, updated_at = 11\<rparr>] 1 = Some \<lparr>id' = 1, title = ''Buy milk'', description = None, status = created,
      created_at = 10, updated_at = 11\<rparr>
   \<and> update_task 1 \<lparr>u_title = Some ''Buy milk'', u_description = None, u_status = Some completed\<rparr> 5 [\<lparr>id' = 1, title = ''Buy milk'', description = None, status = created,
      created_at = 10, updated_at = 11\<rparr>] = Inr (\<lparr>id' = 1, title = ''Buy milk'', description = None, status = completed,
      created_at = 10, updated_at = 5\<rparr>, [\<lparr>id' = 1, title = ''Buy milk'', description = None, status = completed,
      created_at = 10, updated_at = 5\<rparr>])
   \<and> status \<lparr>id' = 1, title = ''Buy milk'', description = None, status = completed,
      created_at = 10, updated_at = 5\<rparr> \<noteq> status \<lparr>id' = 1, title = ''Buy milk'', description = None, status = created,
      created_at = 10, updated_at = 11\<rparr>
   \<and> \<not> updated_at \<lparr>id' = 1, title = ''Buy milk'', description = None, status = created,
      created_at = 10, updated_at = 11\<rparr> \<le> updated_at \<lparr>id' = 1, title = ''Buy milk'', description = None, status = completed,
      created_at = 10, updated_at = 5\<rparr>"
  by (simp add: update_task_def session_get_def set_title_def set_description_def
      set_status_def session_update_def session_refresh_def Let_def)

subsection \<open>Listing\<close>

lemma row_selected_status:
  "row_selected (stmt_offset (stmt_limit
       (case st of
          None \<Rightarrow> stmt_order_by select_Task created_at_desc
        | Some x \<Rightarrow> stmt_where (stmt_order_by select_Task created_at_desc) (Status_eq x))
       limit) offset) t
   \<longleftrightarrow> (case st of None \<Rightarrow> True | Some x \<Rightarrow> status t = x)"
  by (cases st)
    (simp_all add: row_selected_def stmt_offset_def stmt_limit_def stmt_where_def
      stmt_order_by_def select_Task_def)

text \<open>A query that is neither absent nor empty makes list raise.\<close>

lemma list_tasks_query:
  "qs \<noteq> [] \<Longrightarrow> list_tasks s st (Some qs) limit offset = Inl AttributeError"
  by (simp add: list_tasks_def apply_filters_def Let_def)

text \<open>
  Without a query, list returns the rows of the requested status, newest first, cut
  to the page, unless the limit or the offset does not fit the store's integers.
\<close>

lemma list_tasks_no_query:
  assumes "q = None \<or> q = Some []"
  shows "list_tasks s st q limit offset =
     (if - (2 ^ 63) \<le> limit \<and> limit < 2 ^ 63 \<and> - (2 ^ 63) \<le> offset \<and> offset < 2 ^ 63
      then Inr (apply_limit (Some limit)
                 (apply_offset (Some offset)
                   (sort_key (\<lambda>t. - created_at t)
                     (filter (\<lambda>t. case st of None \<Rightarrow> True | Some x \<Rightarrow> status t = x) s))))
      else Inl OverflowError)"
proof -
  let ?stmt = "stmt_offset (stmt_limit
       (case st of
          None \<Rightarrow> stmt_order_by select_Task created_at_desc
        | Some x \<Rightarrow> stmt_where (stmt_order_by select_Task created_at_desc) (Status_eq x))
       limit) offset"
  have l: "list_tasks s st q limit offset = session_exec s ?stmt"
    using assms by (auto simp: list_tasks_def apply_filters_def Let_def)
  have w: "row_selected ?stmt = (\<lambda>t. case st of None \<Rightarrow> True | Some x \<Rightarrow> status t = x)"
    by (rule ext) (rule row_selected_status)
  have c: "limit_clause ?stmt = Some limit" "offset_clause ?stmt = Some offset"
    "order_by_clause ?stmt = Some created_at_desc"
    by (cases st; simp add: stmt_offset_def stmt_limit_def stmt_where_def stmt_order_by_def
        select_Task_def)+
  show ?thesis
    unfolding l session_exec_def w c
    by (simp add: bind_parameter_def apply_order_def)
qed

lemma sorted_desc_sort_key:
  "sorted_wrt (\<lambda>a b. created_at b \<le> created_at a) (sort_key (\<lambda>t. - created_at t) xs)"
proof -
  have "sorted (map (\<lambda>t. - created_at t) (sort_key (\<lambda>t. - created_at t) xs))"
    by (rule sorted_sort_key)
  then show ?thesis by (simp add: sorted_map)
qed

text \<open>
  Claim C5, as the code has it.  For a list call without a query, a limit from 1 to 100
  and an offset from 0 to below \<open>2\<^sup>6\<^sup>3\<close>, list succeeds, and the page it returns is cut
  from the rows of the requested status in descending order of \<^verbatim>\<open>created_at\<close>: the
  first \<^verbatim>\<open>offset\<close> rows are skipped and at most \<^verbatim>\<open>limit\<close> rows follow.  An offset at or
  past the end gives the empty page.
\<close>

theorem list_pagination:
  assumes "1 \<le> limit" and "limit \<le> 100" and "0 \<le> offset" and "offset < 2 ^ 63"
    and "q = None \<or> q = Some []"
  shows "let rows = sort_key (\<lambda>t. - created_at t)
                      (filter (\<lambda>t. case st of None \<Rightarrow> True | Some x \<Rightarrow> status t = x) s);
             page = take (nat limit) (drop (nat offset) rows)
         in sorted_wrt (\<lambda>a b. created_at b \<le> created_at a) rows
          \<and> mset rows =
              filter_mset (\<lambda>t. case st of None \<Rightarrow> True | Some x \<Rightarrow> status t = x) (mset s)
          \<and> list_tasks s st q limit offset = Inr page
          \<and> length page \<le> nat limit
          \<and> (length rows \<le> nat offset \<longrightarrow> list_tasks s st q limit offset = Inr [])"
proof -
  let ?rows = "sort_key (\<lambda>t. - created_at t)
                 (filter (\<lambda>t. case st of None \<Rightarrow> True | Some x \<Rightarrow> status t = x) s)"
  have r: "- (2 ^ 63) \<le> limit \<and> limit < 2 ^ 63 \<and> - (2 ^ 63) \<le> offset \<and> offset < 2 ^ 63"
    using assms(1-4) by simp
  have p: "list_tasks s st q limit offset = Inr (take (nat limit) (drop (nat offset) ?rows))"
    unfolding list_tasks_no_query [OF assms(5)] using r assms(1)
    by (simp add: apply_limit_def apply_offset_def)
  have m: "mset ?rows =
      filter_mset (\<lambda>t. case st of None \<Rightarrow> True | Some x \<Rightarrow> status t = x) (mset s)"
    by simp
  show ?thesis
    unfolding Let_def p using m sorted_desc_sort_key [of "filter _ s"] by simp
qed

theorem list_pagination_witness:
  "(1::int) \<le> 1 \<and> (1::int) \<le> 100 \<and> (0::int) \<le> 1 \<and> (1::int) < 2 ^ 63
   \<and> list_tasks [\<lparr>id' = 1, title = ''Buy milk'', description = None, status = created,
      created_at = 10, updated_at = 11\<rparr>, \<lparr>id' = 2, title = ''Walk dog'', description = Some ''In the park'', status = completed,
      created_at = 20, updated_at = 20\<rparr>] None None 1 1 = Inr [\<lparr>id' = 1, title = ''Buy milk'', description = None, status = created,
      created_at = 10, updated_at = 11\<rparr>]
   \<and> list_tasks [\<lparr>id' = 1, title = ''Buy milk'', description = None, status = created,
      created_at = 10, updated_at = 11\<rparr>, \<lparr>id' = 2, title = ''Walk dog'', description = Some ''In the park'', status = completed,
      created_at = 20, updated_at = 20\<rparr>] None None 1 2 = Inr []
   \<and> list_tasks [\<lparr>id' = 1, title = ''Buy milk'', description = None, status = created,
      created_at = 10, updated_at = 11\<rparr>, \<lparr>id' = 2, title = ''Walk dog'', description = Some ''In the park'', status = completed,
      created_at = 20, updated_at = 20\<rparr>] (Some completed) (Some []) 1 0 = Inr [\<lparr>id' = 2, title = ''Walk dog'', description = Some ''In the park'', status = completed,
      created_at = 20, updated_at = 20\<rparr>]"
  using list_pagination [where limit = 1 and offset = 1 and st = None and q = None
      and s = "[\<lparr>id' = 1, title = ''Buy milk'', description = None, status = created,
      created_at = 10, updated_at = 11\<rparr>, \<lparr>id' = 2, title = ''Walk dog'', description = Some ''In the park'', status = completed,
      created_at = 20, updated_at = 20\<rparr>]"]
    list_pagination [where limit = 1 and offset = 2 and st = None and q = None
      and s = "[\<lparr>id' = 1, title = ''Buy milk'', description = None, status = created,
      created_at = 10, updated_at = 11\<rparr>, \<lparr>id' = 2, title = ''Walk dog'', description = Some ''In the park'', status = completed,
      created_at = 20, updated_at = 20\<rparr>]"]
    list_pagination [where limit = 1 and offset = 0 and st = "Some completed" and q = "Some []"
      and s = "[\<lparr>id' = 1, title = ''Buy milk'', description = None, status = created,
      created_at = 10, updated_at = 11\<rparr>, \<lparr>id' = 2, title = ''Walk dog'', description = Some ''In the park'', status = completed,
      created_at = 20, updated_at = 20\<rparr>]"]
  by (simp add: Let_def)

text \<open>
  Claim C5 as the specification words it asks that no offset of at least 0 ends in an
  error.  The offset \<open>2\<^sup>6\<^sup>3\<close> does not fit the store's integers, and list ends with
  \<^verbatim>\<open>OverflowError\<close>.
\<close>

theorem list_offset_overflow:
  "(1::int) \<le> 20 \<and> (20::int) \<le> 100 \<and> (0::int) \<le> 9223372036854775808
   \<and> list_tasks [\<lparr>id' = 1, title = ''Buy milk'', description = None, status = created,
      created_at = 10, updated_at = 11\<rparr>, \<lparr>id' = 2, title = ''Walk dog'', description = Some ''In the park'', status = completed,
      created_at = 20, updated_at = 20\<rparr>] None None 20 9223372036854775808 = Inl OverflowError"
  by (simp add: list_tasks_def apply_filters_def session_exec_def bind_parameter_def
      stmt_offset_def stmt_limit_def stmt_order_by_def select_Task_def Let_def)

text \<open>
  The part of claim C6 that the code meets: without a query, list with a status
  returns only rows of exactly that status, and list with neither filter is list over
  the whole store.
\<close>

lemma list_status_filter:
  assumes "q = None \<or> q = Some []"
  shows "list_tasks s st q limit offset =
     list_tasks (filter (\<lambda>t. case st of None \<Rightarrow> True | Some x \<Rightarrow> status t = x) s)
       None None limit offset"
  unfolding list_tasks_no_query [OF assms] list_tasks_no_query [OF disjI1 [OF refl]]
  by simp

lemma list_status_only:
  assumes "list_tasks s (Some x) None limit offset = Inr page" and "t \<in> set page"
  shows "status t = x \<and> t \<in> set s"
proof -
  from assms(1) have "page = apply_limit (Some limit) (apply_offset (Some offset)
      (sort_key (\<lambda>t. - created_at t) (filter (\<lambda>t. status t = x) s)))"
    by (simp add: list_tasks_no_query split: if_splits)
  moreover have "set (apply_limit (Some limit) xs) \<subseteq> set xs" for xs :: "Task list"
    by (auto simp: apply_limit_def dest: in_set_takeD)
  moreover have "set (apply_offset (Some offset) xs) \<subseteq> set xs" for xs :: "Task list"
    by (auto simp: apply_offset_def dest: in_set_dropD)
  ultimately
  have "t \<in> set (sort_key (\<lambda>t. - created_at t) (filter (\<lambda>t. status t = x) s))"
    using assms(2) by blast
  then show ?thesis by simp
qed

text \<open>
  Claim C6 asks that with a status and a query both present the result satisfies both.
  With the status \<^verbatim>\<open>completed\<close> and the query \<^verbatim>\<open>dog\<close>, which the completed task
  \<^verbatim>\<open>Walk dog\<close> satisfies, list returns nothing: it raises \<^verbatim>\<open>AttributeError\<close>.  With the
  status alone it returns that task.
\<close>

theorem list_status_and_query_raises:
  "list_tasks [\<lparr>id' = 1, title = ''Buy milk'', description = None, status = created,
      created_at = 10, updated_at = 11\<rparr>, \<lparr>id' = 2, title = ''Walk dog'', description = Some ''In the park'', status = completed,
      created_at = 20, updated_at = 20\<rparr>] (Some completed) (Some ''dog'') 20 0 = Inl AttributeError
   \<and> list_tasks [\<lparr>id' = 1, title = ''Buy milk'', description = None, status = created,
      created_at = 10, updated_at = 11\<rparr>, \<lparr>id' = 2, title = ''Walk dog'', description = Some ''In the park'', status = completed,
      created_at = 20, updated_at = 20\<rparr>] (Some completed) None 20 0 = Inr [\<lparr>id' = 2, title = ''Walk dog'', description = Some ''In the park'', status = completed,
      created_at = 20, updated_at = 20\<rparr>]
   \<and> list_tasks [\<lparr>id' = 1, title = ''Buy milk'', description = None, status = created,
      created_at = 10, updated_at = 11\<rparr>, \<lparr>id' = 2, title = ''Walk dog'', description = Some ''In the park'', status = completed,
      created_at = 20, updated_at = 20\<rparr>] None None 20 0 = Inr [\<lparr>id' = 2, title = ''Walk dog'', description = Some ''In the park'', status = completed,
      created_at = 20, updated_at = 20\<rparr>, \<lparr>id' = 1, title = ''Buy milk'', description = None, status = created,
      created_at = 10, updated_at = 11\<rparr>]"
  by (simp add: list_tasks_def apply_filters_def session_exec_def bind_parameter_def
      stmt_offset_def stmt_limit_def stmt_order_by_def stmt_where_def select_Task_def
      row_selected_def apply_order_def apply_offset_def apply_limit_def Let_def)

text \<open>
  Claim C2 asks that a non-empty query selects exactly the records that contain it.
  With the query \<^verbatim>\<open>milk\<close> over a store that holds the task \<^verbatim>\<open>Buy milk\<close>, list returns
  nothing: it raises \<^verbatim>\<open>AttributeError\<close>, as it does for every non-empty query.
\<close>

theorem list_query_raises:
  "list_tasks [\<lparr>id' = 1, title = ''Buy milk'', description = None, status = created,
      created_at = 10, updated_at = 11\<rparr>, \<lparr>id' = 2, title = ''Walk dog'', description = Some ''In the park'', status = completed,
      created_at = 20, updated_at = 20\<rparr>] None (Some ''milk'') 20 0 = Inl AttributeError"
  by (simp add: list_tasks_def apply_filters_def Let_def)

end
